theory Spec2Isabelle
  imports Main "HOL-Library.AList"
begin

section \<open>Python values used as identifiers\<close>

text \<open>
  The service is dynamically typed. The identifiers it is called with are integers (the
  counters of \<open>LibrarySystem\<close>, the tests), strings (the form fields of the web layer)
  or \<open>None\<close>; \<open>borrowed_by\<close> holds such a value, \<open>None\<close> when the book is on
  the shelf. Python's \<open>==\<close> on these is the equality of the datatype: an integer never
  equals a string.
\<close>

datatype pyval = PyNone | PyInt int | PyStr string

datatype py_error = JSONDecodeError | ValueError

subsection \<open>\<open>str(n)\<close> and \<open>int(s)\<close>\<close>

definition digit_char :: "nat \<Rightarrow> char" where
  "digit_char d = ''0123456789'' ! d"

text \<open>The value of a decimal digit: \<open>ord(c) - ord('0')\<close> for the characters \<open>0\<close> to \<open>9\<close>.\<close>

definition digit_val :: "char \<Rightarrow> nat option" where
  "digit_val c =
     (let n = (of_char c :: nat) in if 48 \<le> n \<and> n \<le> 57 then Some (n - 48) else None)"

definition is_digit :: "char \<Rightarrow> bool" where
  "is_digit c = (digit_val c \<noteq> None)"

fun str_nat :: "nat \<Rightarrow> string" where
  "str_nat n = (if n < 10 then [digit_char n] else str_nat (n div 10) @ [digit_char (n mod 10)])"

declare str_nat.simps [simp del]

text \<open>\<open>str(i)\<close> for an integer: decimal digits, a leading minus sign when negative.\<close>

definition str_int :: "int \<Rightarrow> string" where
  "str_int i = (if i < 0 then CHR ''-'' # str_nat (nat (- i)) else str_nat (nat i))"

text \<open>\<open>str(v)\<close>, the key under which \<open>DataManager\<close> files a record.\<close>

fun py_str :: "pyval \<Rightarrow> string" where
  "py_str PyNone = ''None''"
| "py_str (PyInt i) = str_int i"
| "py_str (PyStr s) = s"

text \<open>
  \<open>int(s)\<close> on an ASCII string: surrounding whitespace is stripped, one sign is allowed,
  then decimal digits follow, where single underscores may separate digits. Anything
  else raises \<open>ValueError\<close> (the value \<open>None\<close> here).
\<close>

definition is_space :: "char \<Rightarrow> bool" where
  "is_space c = (c \<in> set [CHR '' '', CHR 0x09, CHR 0x0A, CHR 0x0B, CHR 0x0C, CHR 0x0D,
                           CHR 0x1C, CHR 0x1D, CHR 0x1E, CHR 0x1F])"

definition py_strip :: "string \<Rightarrow> string" where
  "py_strip s = rev (dropWhile is_space (rev (dropWhile is_space s)))"

fun parse_digits :: "string \<Rightarrow> nat \<Rightarrow> nat option" where
  "parse_digits [] acc = Some acc"
| "parse_digits (c # cs) acc =
     (if c = CHR ''_'' then
        (case cs of
           [] \<Rightarrow> None
         | d # ds \<Rightarrow> (case digit_val d of None \<Rightarrow> None
                      | Some v \<Rightarrow> parse_digits ds (10 * acc + v)))
      else (case digit_val c of None \<Rightarrow> None
            | Some v \<Rightarrow> parse_digits cs (10 * acc + v)))"

definition parse_nat :: "string \<Rightarrow> nat option" where
  "parse_nat s =
     (case s of
        [] \<Rightarrow> None
      | c # cs \<Rightarrow> (case digit_val c of None \<Rightarrow> None | Some v \<Rightarrow> parse_digits cs v))"

definition py_int :: "string \<Rightarrow> int option" where
  "py_int s =
     (case py_strip s of
        [] \<Rightarrow> None
      | c # cs \<Rightarrow>
          if c = CHR ''-'' then map_option (\<lambda>n. - int n) (parse_nat cs)
          else if c = CHR ''+'' then map_option int (parse_nat cs)
          else map_option int (parse_nat (c # cs)))"

section \<open>Data model\<close>

text \<open>
  A timestamp is a \<open>datetime\<close> value, counted in microseconds. The store keeps its
  \<open>isoformat()\<close> text, which names the value one to one, so the model keeps the value.
\<close>

type_synonym timestamp = int

definition timedelta_days :: "int \<Rightarrow> int" where
  "timedelta_days d = d * 86400000000"

text \<open>An entry of a member's \<open>borrowed_books\<close> list.\<close>

record borrow_record =
  book_id :: pyval
  borrowed_date :: timestamp
  due_date :: timestamp

record transaction =
  tx_type :: string
  tx_member_id :: pyval
  tx_book_id :: pyval
  tx_date :: timestamp

text \<open>The dictionary \<open>Book.to_dict\<close> builds, as it is kept under \<open>data['books']\<close>.\<close>

record book_data =
  bd_id :: int
  bd_title :: string
  bd_author :: string
  bd_isbn :: string
  bd_category :: string
  is_available :: bool
  borrowed_by :: pyval
  added_date :: timestamp

text \<open>The dictionary \<open>Member.to_dict\<close> builds, as it is kept under \<open>data['members']\<close>.\<close>

record member_data =
  md_id :: int
  md_name :: string
  md_email :: string
  md_created_at :: timestamp
  borrowed_books :: "borrow_record list"
  can_borrow_more :: bool

text \<open>
  A Python dictionary keeps its keys in insertion order, and assigning to a key that is
  present replaces the value in place: an association list with \<open>AList.update\<close>, read
  with \<open>map_of\<close>.
\<close>

record document =
  books :: "(string \<times> book_data) list"
  members :: "(string \<times> member_data) list"
  transactions :: "transaction list"

text \<open>The objects of class \<open>Book\<close> and class \<open>Member\<close> (a \<open>Person\<close>).\<close>

record book =
  b_book_id :: int
  b_title :: string
  b_author :: string
  b_isbn :: string
  b_category :: string
  b_is_available :: bool
  b_borrowed_by :: pyval
  b_added_date :: timestamp

record member =
  m_person_id :: int
  m_name :: string
  m_email :: string
  m_created_at :: timestamp
  m_borrowed_books :: "borrow_record list"
  m_max_books :: nat

text \<open>
  What the program takes from outside: the clock (\<open>now k\<close> is what the \<open>k\<close>-th call
  of \<open>datetime.now()\<close> returns) and the JSON library (\<open>json.dump\<close> as the text it
  writes, \<open>json.load\<close> as the document it decodes or the error it raises).
\<close>

record env =
  now :: "nat \<Rightarrow> timestamp"
  json_dump :: "document \<Rightarrow> string"
  json_load :: "string \<Rightarrow> py_error + document"

text \<open>
  The state of a running \<open>LibrarySystem\<close>: the document of its \<open>DataManager\<close>, the
  contents of the store file (\<open>None\<close> while the file does not exist), the two
  counters, and the number of clock readings taken so far.
\<close>

record library_system =
  data :: document
  store_file :: "string option"
  next_book_id :: int
  next_member_id :: int
  clock_reads :: nat

definition datetime_now :: "env \<Rightarrow> library_system \<Rightarrow> timestamp \<times> library_system" where
  "datetime_now e s = (now e (clock_reads s), s\<lparr>clock_reads := Suc (clock_reads s)\<rparr>)"

section \<open>Catalog entities\<close>

text \<open>\<open>Person.__init__\<close> reads the clock for \<open>_created_at\<close>; \<open>Member.__init__\<close> adds the list and the limit.\<close>

definition Member_init ::
  "env \<Rightarrow> int \<Rightarrow> string \<Rightarrow> string \<Rightarrow> library_system \<Rightarrow> member \<times> library_system" where
  "Member_init e member_id nm em s =
     (let (t, s') = datetime_now e s
      in (\<lparr>m_person_id = member_id, m_name = nm, m_email = em, m_created_at = t,
           m_borrowed_books = [], m_max_books = 3\<rparr>, s'))"

definition can_borrow :: "member \<Rightarrow> bool" where
  "can_borrow m = (length (m_borrowed_books m) < m_max_books m)"

text \<open>\<open>Member.borrow_book\<close>: the dictionary display calls \<open>datetime.now()\<close> twice, in order.\<close>

definition Member_borrow_book ::
  "env \<Rightarrow> pyval \<Rightarrow> member \<Rightarrow> library_system \<Rightarrow> (bool \<times> member) \<times> library_system" where
  "Member_borrow_book e bid m s =
     (if can_borrow m then
        let (t1, s1) = datetime_now e s;
            (t2, s2) = datetime_now e s1
        in ((True, m\<lparr>m_borrowed_books := m_borrowed_books m @
                     [\<lparr>book_id = bid, borrowed_date = t1,
                       due_date = t2 + timedelta_days 14\<rparr>]\<rparr>), s2)
      else ((False, m), s))"

definition Member_return_book :: "pyval \<Rightarrow> member \<Rightarrow> member" where
  "Member_return_book bid m =
     m\<lparr>m_borrowed_books := filter (\<lambda>b. book_id b \<noteq> bid) (m_borrowed_books m)\<rparr>"

definition Member_to_dict :: "member \<Rightarrow> member_data" where
  "Member_to_dict m =
     \<lparr>md_id = m_person_id m, md_name = m_name m, md_email = m_email m,
      md_created_at = m_created_at m, borrowed_books = m_borrowed_books m,
      can_borrow_more = can_borrow m\<rparr>"

definition Book_init ::
  "env \<Rightarrow> int \<Rightarrow> string \<Rightarrow> string \<Rightarrow> string \<Rightarrow> string \<Rightarrow> library_system \<Rightarrow> book \<times> library_system" where
  "Book_init e bid title author isbn category s =
     (let (t, s') = datetime_now e s
      in (\<lparr>b_book_id = bid, b_title = title, b_author = author, b_isbn = isbn,
           b_category = category, b_is_available = True, b_borrowed_by = PyNone,
           b_added_date = t\<rparr>, s'))"

definition Book_to_dict :: "book \<Rightarrow> book_data" where
  "Book_to_dict b =
     \<lparr>bd_id = b_book_id b, bd_title = b_title b, bd_author = b_author b, bd_isbn = b_isbn b,
      bd_category = b_category b, is_available = b_is_available b,
      borrowed_by = b_borrowed_by b, added_date = b_added_date b\<rparr>"

section \<open>\<open>DataManager\<close>\<close>

definition empty_document :: document where
  "empty_document = \<lparr>books = [], members = [], transactions = []\<rparr>"

text \<open>\<open>_load_data\<close>: the decoder runs when the file exists, and what it raises is not caught.\<close>

definition DataManager_load_data :: "env \<Rightarrow> string option \<Rightarrow> py_error + document" where
  "DataManager_load_data e file =
     (case file of
        Some contents \<Rightarrow> json_load e contents
      | None \<Rightarrow> Inr empty_document)"

text \<open>\<open>_save_data\<close>: the file is opened for writing and the whole document is dumped.\<close>

definition DataManager_save_data :: "env \<Rightarrow> library_system \<Rightarrow> library_system" where
  "DataManager_save_data e s = s\<lparr>store_file := Some (json_dump e (data s))\<rparr>"

definition DataManager_add_book :: "env \<Rightarrow> book \<Rightarrow> library_system \<Rightarrow> library_system" where
  "DataManager_add_book e b s =
     DataManager_save_data e
       (s\<lparr>data := (data s)\<lparr>books :=
            AList.update (str_int (b_book_id b)) (Book_to_dict b) (books (data s))\<rparr>\<rparr>)"

definition DataManager_add_member :: "env \<Rightarrow> member \<Rightarrow> library_system \<Rightarrow> library_system" where
  "DataManager_add_member e m s =
     DataManager_save_data e
       (s\<lparr>data := (data s)\<lparr>members :=
            AList.update (str_int (m_person_id m)) (Member_to_dict m) (members (data s))\<rparr>\<rparr>)"

definition get_book :: "library_system \<Rightarrow> pyval \<Rightarrow> book_data option" where
  "get_book s bid = map_of (books (data s)) (py_str bid)"

definition get_member :: "library_system \<Rightarrow> pyval \<Rightarrow> member_data option" where
  "get_member s mid = map_of (members (data s)) (py_str mid)"

definition update_book :: "env \<Rightarrow> pyval \<Rightarrow> book_data \<Rightarrow> library_system \<Rightarrow> library_system" where
  "update_book e bid bd s =
     DataManager_save_data e
       (s\<lparr>data := (data s)\<lparr>books := AList.update (py_str bid) bd (books (data s))\<rparr>\<rparr>)"

definition update_member :: "env \<Rightarrow> pyval \<Rightarrow> member_data \<Rightarrow> library_system \<Rightarrow> library_system" where
  "update_member e mid md s =
     DataManager_save_data e
       (s\<lparr>data := (data s)\<lparr>members := AList.update (py_str mid) md (members (data s))\<rparr>\<rparr>)"

definition add_transaction :: "env \<Rightarrow> transaction \<Rightarrow> library_system \<Rightarrow> library_system" where
  "add_transaction e t s =
     DataManager_save_data e
       (s\<lparr>data := (data s)\<lparr>transactions := transactions (data s) @ [t]\<rparr>\<rparr>)"

section \<open>\<open>LibrarySystem\<close>\<close>



text \<open>
  \<open>borrow_book\<close> and \<open>return_book\<close> test \<open>not member_data or not book_data\<close>. A stored
  record has all its fields, so it is never an empty dictionary, and the test is whether
  \<open>get\<close> found the key. Both rebuild a \<open>Member\<close> from the stored record, which reads the
  clock for \<open>created_at\<close> again, and hand it the stored list; \<open>Member.borrow_book\<close>
  appends to that list in place, and the record that shared it is replaced by
  \<open>update_member\<close> in the next statement.
\<close>

definition LibrarySystem_add_book ::
  "env \<Rightarrow> string \<Rightarrow> string \<Rightarrow> string \<Rightarrow> string \<Rightarrow> library_system \<Rightarrow> book \<times> library_system" where
  "LibrarySystem_add_book e title author isbn category s =
     (let (b, s1) = Book_init e (next_book_id s) title author isbn category s;
          s2 = DataManager_add_book e b s1
      in (b, s2\<lparr>next_book_id := next_book_id s2 + 1\<rparr>))"

definition LibrarySystem_add_member ::
  "env \<Rightarrow> string \<Rightarrow> string \<Rightarrow> library_system \<Rightarrow> member \<times> library_system" where
  "LibrarySystem_add_member e nm em s =
     (let (m, s1) = Member_init e (next_member_id s) nm em s;
          s2 = DataManager_add_member e m s1
      in (m, s2\<lparr>next_member_id := next_member_id s2 + 1\<rparr>))"

definition LibrarySystem_borrow_book ::
  "env \<Rightarrow> pyval \<Rightarrow> pyval \<Rightarrow> library_system \<Rightarrow> (bool \<times> string) \<times> library_system" where
  "LibrarySystem_borrow_book e member_id bid s =
     (case get_member s member_id of
        None \<Rightarrow> ((False, ''Member or book not found''), s)
      | Some md \<Rightarrow>
     (case get_book s bid of
        None \<Rightarrow> ((False, ''Member or book not found''), s)
      | Some bd \<Rightarrow>
          if \<not> is_available bd then ((False, ''Book is not available''), s)
          else
            let (m0, s1) = Member_init e (md_id md) (md_name md) (md_email md) s;
                m = m0\<lparr>m_borrowed_books := borrowed_books md\<rparr>
            in
              if \<not> can_borrow m then ((False, ''Member has reached borrowing limit''), s1)
              else
                let bd' = bd\<lparr>is_available := False, borrowed_by := member_id\<rparr>;
                    s2 = update_book e bid bd' s1;
                    ((ok, m'), s3) = Member_borrow_book e bid m s2;
                    s4 = update_member e member_id (Member_to_dict m') s3;
                    (t, s5) = datetime_now e s4;
                    s6 = add_transaction e
                           \<lparr>tx_type = ''borrow'', tx_member_id = member_id,
                            tx_book_id = bid, tx_date = t\<rparr> s5
                in ((True, ''Book borrowed successfully''), s6)))"

definition LibrarySystem_return_book ::
  "env \<Rightarrow> pyval \<Rightarrow> pyval \<Rightarrow> library_system \<Rightarrow> (bool \<times> string) \<times> library_system" where
  "LibrarySystem_return_book e member_id bid s =
     (case get_member s member_id of
        None \<Rightarrow> ((False, ''Member or book not found''), s)
      | Some md \<Rightarrow>
     (case get_book s bid of
        None \<Rightarrow> ((False, ''Member or book not found''), s)
      | Some bd \<Rightarrow>
          let bd' = bd\<lparr>is_available := True, borrowed_by := PyNone\<rparr>;
              s1 = update_book e bid bd' s;
              (m0, s2) = Member_init e (md_id md) (md_name md) (md_email md) s1;
              m = m0\<lparr>m_borrowed_books := borrowed_books md\<rparr>;
              m' = Member_return_book bid m;
              s3 = update_member e member_id (Member_to_dict m') s2;
              (t, s4) = datetime_now e s3;
              s5 = add_transaction e
                     \<lparr>tx_type = ''return'', tx_member_id = member_id,
                      tx_book_id = bid, tx_date = t\<rparr> s4
          in ((True, ''Book returned successfully''), s5)))"

section \<open>Sequences of service calls\<close>

datatype op =
    AddBook string string string string
  | AddMember string string
  | BorrowBook pyval pyval
  | ReturnBook pyval pyval

fun step :: "env \<Rightarrow> op \<Rightarrow> library_system \<Rightarrow> library_system" where
  "step e (AddBook title author isbn category) s =
     snd (LibrarySystem_add_book e title author isbn category s)"
| "step e (AddMember nm em) s = snd (LibrarySystem_add_member e nm em s)"
| "step e (BorrowBook m b) s = snd (LibrarySystem_borrow_book e m b s)"
| "step e (ReturnBook m b) s = snd (LibrarySystem_return_book e m b s)"

definition run :: "env \<Rightarrow> op list \<Rightarrow> library_system \<Rightarrow> library_system" where
  "run e ops s = fold (step e) ops s"

text \<open>The service as it is constructed when no store file exists.\<close>

definition fresh_system :: library_system where
  "fresh_system =
     \<lparr>data = empty_document, store_file = None, next_book_id = 1, next_member_id = 1,
      clock_reads = 0\<rparr>"

section \<open>A store for worked examples\<close>

text \<open>
  One book, lent to member 1; member 2 holds nothing. Its document is the one reached by
  \<open>add_book\<close>, \<open>add_member\<close>, \<open>add_member\<close>, \<open>borrow_book(1, 1)\<close> from the empty store,
  on a clock that advances by one microsecond per reading (lemma \<open>lent_out_reached\<close>).
\<close>

definition lent_out :: library_system where
  "lent_out =
     \<lparr>data =
        \<lparr>books =
           [(''1'', \<lparr>bd_id = 1, bd_title = ''T'', bd_author = ''A'', bd_isbn = ''ISBN1'',
                    bd_category = ''General'', is_available = False, borrowed_by = PyInt 1,
                    added_date = 0\<rparr>)],
         members =
           [(''1'', \<lparr>md_id = 1, md_name = ''Ann'', md_email = ''ann@example.com'',
                    md_created_at = 3,
                    borrowed_books =
                      [\<lparr>book_id = PyInt 1, borrowed_date = 4, due_date = 1209600000005\<rparr>],
                    can_borrow_more = True\<rparr>),
            (''2'', \<lparr>md_id = 2, md_name = ''Bob'', md_email = ''bob@example.com'',
                    md_created_at = 2, borrowed_books = [], can_borrow_more = True\<rparr>)],
         transactions =
           [\<lparr>tx_type = ''borrow'', tx_member_id = PyInt 1, tx_book_id = PyInt 1,
             tx_date = 6\<rparr>]\<rparr>,
      store_file = None, next_book_id = 2, next_member_id = 3, clock_reads = 7\<rparr>"

section \<open>Predicates used in the properties\<close>


text \<open>Invariants of the runs from the empty store.\<close>

definition limit_ok :: "library_system \<Rightarrow> bool" where
  "limit_ok s = (\<forall>(k, md) \<in> set (members (data s)). length (borrowed_books md) \<le> 3)"

definition member_keys_numeric :: "library_system \<Rightarrow> bool" where
  "member_keys_numeric s = (\<forall>k \<in> fst ` set (members (data s)). \<exists>i. k = str_int i)"

definition availability_ok :: "library_system \<Rightarrow> bool" where
  "availability_ok s =
     (\<forall>(k, bd) \<in> set (books (data s)). (is_available bd = False) = (borrowed_by bd \<noteq> PyNone))"

text \<open>
  A \<open>return_book(m, b)\<close> call is made by a holder when it finds no member or no book
  (and so changes nothing), when the book is on the shelf, or when the list of member
  \<open>m\<close> has a borrow record whose \<open>book_id\<close> equals \<open>b\<close>.
\<close>

fun return_by_holder :: "library_system \<Rightarrow> op \<Rightarrow> bool" where
  "return_by_holder s (ReturnBook m b) =
     (case get_member s m of
        None \<Rightarrow> True
      | Some md \<Rightarrow>
     (case get_book s b of
        None \<Rightarrow> True
      | Some bd \<Rightarrow> is_available bd \<or> b \<in> set (map book_id (borrowed_books md))))"
| "return_by_holder s x = True"

fun returns_by_holder :: "env \<Rightarrow> op list \<Rightarrow> library_system \<Rightarrow> bool" where
  "returns_by_holder e [] s = True"
| "returns_by_holder e (x # xs) s =
     (return_by_holder s x \<and> returns_by_holder e xs (step e x s))"

text \<open>
  The records of a member are for different books, each of which the store shows as
  lent to that member; no two member entries share a key.
\<close>

definition holdings_ok :: "document \<Rightarrow> bool" where
  "holdings_ok d =
     (distinct (map fst (members d))
      \<and> (\<forall>(k, md) \<in> set (members d).
            distinct (map (\<lambda>r. py_str (book_id r)) (borrowed_books md))
            \<and> (\<forall>r \<in> set (borrowed_books md).
                  \<exists>bd. map_of (books d) (py_str (book_id r)) = Some bd
                       \<and> \<not> is_available bd \<and> py_str (borrowed_by bd) = k)))"

definition book_keys_below :: "library_system \<Rightarrow> bool" where
  "book_keys_below s =
     (\<forall>k \<in> fst ` set (books (data s)). \<exists>i. k = str_int i \<and> i < next_book_id s)"

section \<open>Unfolding the model\<close>

lemmas entity_defs = datetime_now_def Member_init_def can_borrow_def Member_borrow_book_def
  Member_return_book_def Member_to_dict_def Book_init_def Book_to_dict_def

lemmas manager_defs = DataManager_save_data_def DataManager_add_book_def
  DataManager_add_member_def get_book_def get_member_def update_book_def update_member_def
  add_transaction_def

lemmas service_defs = LibrarySystem_add_book_def LibrarySystem_add_member_def
  LibrarySystem_borrow_book_def LibrarySystem_return_book_def

lemmas eval_defs = run_def fresh_system_def empty_document_def service_defs manager_defs
  entity_defs str_int_def str_nat.simps digit_char_def Let_def timedelta_days_def

lemma lent_out_reached:
  "data (run (e\<lparr>now := (\<lambda>k. int k)\<rparr>)
           [AddBook ''T'' ''A'' ''ISBN1'' ''General'', AddMember ''Ann'' ''ann@example.com'',
            AddMember ''Bob'' ''bob@example.com'', BorrowBook (PyInt 1) (PyInt 1)]
           fresh_system)
   = data lent_out"
  by (simp add: eval_defs lent_out_def)

section \<open>\<open>str\<close> and \<open>int\<close> are inverse on integers\<close>

lemma digit_val_digit_char: "d < 10 \<Longrightarrow> digit_val (digit_char d) = Some d"
proof -
  assume "d < 10"
  then have "d \<in> {0,1,2,3,4,5,6,7,8,9}" by auto
  then show ?thesis by (auto simp: digit_val_def digit_char_def)
qed

lemma is_digit_digit_char: "d < 10 \<Longrightarrow> is_digit (digit_char d)"
  by (simp add: is_digit_def digit_val_digit_char)

lemma str_nat_digits: "\<forall>c \<in> set (str_nat n). is_digit c"
proof (induction n rule: str_nat.induct)
  case (1 n)
  show ?case
  proof (cases "n < 10")
    case True
    then show ?thesis by (subst str_nat.simps) (simp add: is_digit_digit_char)
  next
    case False
    with 1 show ?thesis by (subst str_nat.simps) (simp add: is_digit_digit_char)
  qed
qed

lemma str_nat_nonempty: "str_nat n \<noteq> []"
  by (subst str_nat.simps) simp

lemma parse_digits_digits:
  "\<forall>c \<in> set cs. is_digit c \<Longrightarrow>
   parse_digits cs acc = Some (foldl (\<lambda>a c. 10 * a + the (digit_val c)) acc cs)"
proof (induction cs arbitrary: acc)
  case Nil
  then show ?case by simp
next
  case (Cons c cs)
  then have c: "is_digit c" by simp
  then have "c \<noteq> CHR ''_''" by (auto simp: is_digit_def digit_val_def)
  with c Cons show ?case by (auto simp: is_digit_def)
qed

lemma foldl_str_nat:
  "foldl (\<lambda>a c. 10 * a + the (digit_val c)) 0 (str_nat n) = n"
proof (induction n rule: str_nat.induct)
  case (1 n)
  show ?case
  proof (cases "n < 10")
    case True
    then show ?thesis by (subst str_nat.simps) (simp add: digit_val_digit_char)
  next
    case False
    with 1 show ?thesis by (subst str_nat.simps) (simp add: digit_val_digit_char)
  qed
qed

lemma parse_nat_str_nat: "parse_nat (str_nat n) = Some n"
proof -
  obtain c cs where eq: "str_nat n = c # cs"
    using str_nat_nonempty [of n] by (cases "str_nat n") auto
  have d: "\<forall>x \<in> set (c # cs). is_digit x" using str_nat_digits [of n] eq by simp
  then obtain v where v: "digit_val c = Some v" by (auto simp: is_digit_def)
  have "parse_nat (c # cs) = parse_digits cs v" by (simp add: parse_nat_def v)
  also have "\<dots> = Some (foldl (\<lambda>a c. 10 * a + the (digit_val c)) v cs)"
    using d by (simp add: parse_digits_digits)
  also have "foldl (\<lambda>a c. 10 * a + the (digit_val c)) v cs
      = foldl (\<lambda>a c. 10 * a + the (digit_val c)) 0 (c # cs)" by (simp add: v)
  finally show ?thesis using foldl_str_nat [of n] eq by simp
qed

lemma is_digit_not_space: "is_digit c \<Longrightarrow> \<not> is_space c"
  by (auto simp: is_digit_def digit_val_def is_space_def split: if_splits)

lemma py_strip_id:
  assumes "s \<noteq> []" "\<not> is_space (hd s)" "\<not> is_space (last s)"
  shows "py_strip s = s"
proof -
  have 1: "dropWhile is_space s = s" using assms by (cases s) auto
  have "rev s \<noteq> []" "\<not> is_space (hd (rev s))" using assms by (simp_all add: hd_rev)
  then have 2: "dropWhile is_space (rev s) = rev s" by (cases "rev s") auto
  show ?thesis by (simp add: py_strip_def 1 2)
qed

lemma str_nat_hd_last: "is_digit (hd (str_nat n))" "is_digit (last (str_nat n))"
  using str_nat_digits [of n] str_nat_nonempty [of n] by auto

lemma py_strip_str_int: "py_strip (str_int i) = str_int i"
proof (rule py_strip_id)
  show "str_int i \<noteq> []" by (simp add: str_int_def str_nat_nonempty)
  show "\<not> is_space (hd (str_int i))"
    using str_nat_hd_last(1) [of "nat i"]
    by (auto simp: str_int_def is_space_def dest: is_digit_not_space)
  show "\<not> is_space (last (str_int i))"
    using str_nat_hd_last(2) is_digit_not_space
    by (auto simp: str_int_def str_nat_nonempty)
qed

lemma py_int_str_int: "py_int (str_int i) = Some i"
proof (cases "i < 0")
  case True
  then show ?thesis
    by (simp add: py_int_def py_strip_str_int) (simp add: str_int_def parse_nat_str_nat)
next
  case False
  obtain c cs where eq: "str_nat (nat i) = c # cs"
    using str_nat_nonempty [of "nat i"] by (cases "str_nat (nat i)") auto
  have "is_digit c" using str_nat_digits [of "nat i"] eq by simp
  then have "c \<noteq> CHR ''-''" "c \<noteq> CHR ''+''" by (auto simp: is_digit_def digit_val_def)
  moreover have "parse_nat (c # cs) = Some (nat i)"
    using parse_nat_str_nat [of "nat i"] eq by simp
  ultimately show ?thesis using False
    by (simp add: py_int_def py_strip_str_int) (simp add: str_int_def eq)
qed

lemma str_int_inj:
  assumes "str_int i = str_int j"
  shows "i = j"
proof -
  have "Some i = py_int (str_int i)" by (simp only: py_int_str_int)
  also have "\<dots> = py_int (str_int j)" by (simp only: assms)
  also have "\<dots> = Some j" by (simp only: py_int_str_int)
  finally show ?thesis by simp
qed

lemma str_int_not_None: "str_int i \<noteq> ''None''"
proof
  assume "str_int i = ''None''"
  then have "py_int ''None'' = Some i" using py_int_str_int [of i] by (simp only:)
  then show False
    by (simp add: py_int_def py_strip_def is_space_def parse_nat_def digit_val_def)
qed

section \<open>Borrowing a book that is out\<close>

text \<open>
  Claim C3. When the member record and the book record both exist and the book's
  \<open>is_available\<close> is false, \<open>borrow_book\<close> returns \<open>(False, "Book is not available")\<close>
  and the whole state of the service is as it was: the document (book record, member
  record, transaction log), the store file, the counters, and no clock reading is taken.
\<close>

theorem borrow_unavailable_unchanged:
  assumes "get_member s member_id = Some md"
    and "get_book s bid = Some bd"
    and "\<not> is_available bd"
  shows "LibrarySystem_borrow_book e member_id bid s = ((False, ''Book is not available''), s)"
  using assms by (simp add: LibrarySystem_borrow_book_def)

theorem borrow_unavailable_unchanged_witness:
  "\<forall>e. get_member lent_out (PyInt 2) \<noteq> None
     \<and> map_option is_available (get_book lent_out (PyInt 1)) = Some False
     \<and> LibrarySystem_borrow_book e (PyInt 2) (PyInt 1) lent_out
         = ((False, ''Book is not available''), lent_out)"
proof
  fix e
  obtain md where m: "get_member lent_out (PyInt 2) = Some md"
    by (simp add: lent_out_def eval_defs)
  obtain bd where b: "get_book lent_out (PyInt 1) = Some bd" and a: "\<not> is_available bd"
    by (simp add: lent_out_def eval_defs)
  show "get_member lent_out (PyInt 2) \<noteq> None
     \<and> map_option is_available (get_book lent_out (PyInt 1)) = Some False
     \<and> LibrarySystem_borrow_book e (PyInt 2) (PyInt 1) lent_out
         = ((False, ''Book is not available''), lent_out)"
    using borrow_unavailable_unchanged [OF m b a, of e] m b a by simp
qed

section \<open>Returning a book\<close>

text \<open>
  Claim C4. When the member record and the book record both exist, whoever holds the
  book, \<open>return_book\<close> succeeds: the book record gets \<open>is_available = True\<close> and
  \<open>borrowed_by = None\<close>; the member record is rebuilt with the borrow records whose
  \<open>book_id\<close> equals the argument filtered out (nothing changes in the list when none
  matches); one \<open>return\<close> transaction is appended. The call answers
  \<open>"Member or book not found"\<close> exactly when one of the two records is missing, and
  then the state is as it was.
\<close>

theorem return_book_effect:
  "(\<forall>md bd. get_member s member_id = Some md \<and> get_book s bid = Some bd \<longrightarrow>
      fst (LibrarySystem_return_book e member_id bid s) = (True, ''Book returned successfully'')
      \<and> get_book (snd (LibrarySystem_return_book e member_id bid s)) bid
            = Some (bd\<lparr>is_available := True, borrowed_by := PyNone\<rparr>)
      \<and> get_member (snd (LibrarySystem_return_book e member_id bid s)) member_id
            = Some \<lparr>md_id = md_id md, md_name = md_name md, md_email = md_email md,
                    md_created_at = now e (clock_reads s),
                    borrowed_books = filter (\<lambda>r. book_id r \<noteq> bid) (borrowed_books md),
                    can_borrow_more =
                      (length (filter (\<lambda>r. book_id r \<noteq> bid) (borrowed_books md)) < 3)\<rparr>
      \<and> transactions (data (snd (LibrarySystem_return_book e member_id bid s)))
            = transactions (data s) @
              [\<lparr>tx_type = ''return'', tx_member_id = member_id, tx_book_id = bid,
                tx_date = now e (Suc (clock_reads s))\<rparr>])
   \<and> ((fst (LibrarySystem_return_book e member_id bid s) = (False, ''Member or book not found''))
        = (get_member s member_id = None \<or> get_book s bid = None))
   \<and> (get_member s member_id = None \<or> get_book s bid = None \<longrightarrow>
        snd (LibrarySystem_return_book e member_id bid s) = s)"
  by (auto simp: LibrarySystem_return_book_def entity_defs manager_defs Let_def
      AList.update_conv' split: option.splits)

text \<open>Member 2, who holds nothing, returns book 1, which member 1 borrowed.\<close>

theorem return_book_effect_witness:
  "\<forall>e. fst (LibrarySystem_return_book e (PyInt 2) (PyInt 1) lent_out)
          = (True, ''Book returned successfully'')
     \<and> map_option (\<lambda>b. (is_available b, borrowed_by b))
          (get_book (snd (LibrarySystem_return_book e (PyInt 2) (PyInt 1) lent_out)) (PyInt 1))
          = Some (True, PyNone)
     \<and> map_option borrowed_books
          (get_member (snd (LibrarySystem_return_book e (PyInt 2) (PyInt 1) lent_out)) (PyInt 2))
          = Some []
     \<and> length (transactions (data (snd (LibrarySystem_return_book e (PyInt 2) (PyInt 1) lent_out))))
          = 2"
proof
  fix e
  obtain md where m: "get_member lent_out (PyInt 2) = Some md" and l: "borrowed_books md = []"
    by (simp add: lent_out_def eval_defs)
  obtain bd where b: "get_book lent_out (PyInt 1) = Some bd"
    by (simp add: lent_out_def eval_defs)
  have t: "length (transactions (data lent_out)) = 1" by (simp add: lent_out_def)
  show "fst (LibrarySystem_return_book e (PyInt 2) (PyInt 1) lent_out)
          = (True, ''Book returned successfully'')
     \<and> map_option (\<lambda>b. (is_available b, borrowed_by b))
          (get_book (snd (LibrarySystem_return_book e (PyInt 2) (PyInt 1) lent_out)) (PyInt 1))
          = Some (True, PyNone)
     \<and> map_option borrowed_books
          (get_member (snd (LibrarySystem_return_book e (PyInt 2) (PyInt 1) lent_out)) (PyInt 2))
          = Some []
     \<and> length (transactions (data (snd (LibrarySystem_return_book e (PyInt 2) (PyInt 1) lent_out))))
          = 2"
    using return_book_effect [of lent_out "PyInt 2" "PyInt 1" e] m b l t by simp
qed

section \<open>Loading and saving the store file\<close>

text \<open>
  Claim C7, as the code has it. \<open>load\<close> returns the empty default document when the store
  file is missing. When the file exists, \<open>load\<close> is the JSON decoder on its contents:
  a document when the contents decode, and the decoder's error, raised to the caller,
  when they are malformed. Nothing catches that error.
\<close>

theorem load_missing_or_decoded:
  "DataManager_load_data e None = Inr empty_document
   \<and> DataManager_load_data e (Some contents) = json_load e contents"
  by (simp add: DataManager_load_data_def)

text \<open>
  The claim as stated fails: with a store file holding the text \<open>{\<close>, which the decoder
  rejects, \<open>load\<close> raises \<open>JSONDecodeError\<close> and returns no document.
\<close>

theorem load_malformed_counterexample:
  "\<forall>e. DataManager_load_data (e\<lparr>json_load := (json_load e)(''{'' := Inl JSONDecodeError)\<rparr>)
          (Some ''{'') = Inl JSONDecodeError"
  by (simp add: DataManager_load_data_def)



section \<open>The due date of a borrow record\<close>

lemma Member_borrow_book_record:
  "can_borrow m \<Longrightarrow>
   m_borrowed_books (snd (fst (Member_borrow_book e bid m s)))
     = m_borrowed_books m @
       [\<lparr>book_id = bid, borrowed_date = now e (clock_reads s),
         due_date = now e (Suc (clock_reads s)) + timedelta_days 14\<rparr>]"
  by (simp add: Member_borrow_book_def datetime_now_def)

text \<open>
  Claim C6 against the code. \<open>Member.borrow_book\<close> reads the clock once for
  \<open>borrowed_date\<close> and once more for \<open>due_date\<close>. On a clock that advances by one
  microsecond per reading, the first borrow after \<open>add_book\<close> and \<open>add_member\<close> records
  \<open>borrowed_date = 3\<close> and \<open>due_date = 4 + 14 days\<close>: one microsecond more than
  \<open>borrowed_date + 14 days\<close>.
\<close>

theorem borrow_due_date_second_reading:
  "map_option borrowed_books
     (get_member
        (run (e\<lparr>now := (\<lambda>k. int k)\<rparr>)
           [AddBook ''T'' ''A'' ''ISBN1'' ''General'', AddMember ''Ann'' ''ann@example.com'',
            BorrowBook (PyInt 1) (PyInt 1)] fresh_system)
        (PyInt 1))
   = Some [\<lparr>book_id = PyInt 1, borrowed_date = 3,
            due_date = 3 + timedelta_days 14 + 1\<rparr>]"
  by (simp add: eval_defs)

section \<open>Identifier allocation\<close>





section \<open>What borrowing and returning leave alone\<close>








section \<open>The document after each service call\<close>

lemma set_updateD:
  "p \<in> set (AList.update k v al) \<Longrightarrow> p = (k, v) \<or> p \<in> set al"
  by (induction al) (auto split: if_splits)

lemma add_book_data:
  "data (snd (LibrarySystem_add_book e title author isbn category s)) =
     (data s)\<lparr>books :=
        AList.update (str_int (next_book_id s))
          \<lparr>bd_id = next_book_id s, bd_title = title, bd_author = author, bd_isbn = isbn,
           bd_category = category, is_available = True, borrowed_by = PyNone,
           added_date = now e (clock_reads s)\<rparr>
          (books (data s))\<rparr>"
  by (simp add: LibrarySystem_add_book_def entity_defs manager_defs Let_def)

lemma add_member_data:
  "data (snd (LibrarySystem_add_member e nm em s)) =
     (data s)\<lparr>members :=
        AList.update (str_int (next_member_id s))
          \<lparr>md_id = next_member_id s, md_name = nm, md_email = em,
           md_created_at = now e (clock_reads s), borrowed_books = [],
           can_borrow_more = True\<rparr>
          (members (data s))\<rparr>"
  by (simp add: LibrarySystem_add_member_def entity_defs manager_defs Let_def)

lemma borrow_book_data:
  "data (snd (LibrarySystem_borrow_book e member_id bid s)) =
     (case get_member s member_id of
        None \<Rightarrow> data s
      | Some md \<Rightarrow>
     (case get_book s bid of
        None \<Rightarrow> data s
      | Some bd \<Rightarrow>
          if is_available bd \<and> length (borrowed_books md) < 3 then
            (data s)\<lparr>books := AList.update (py_str bid)
                       (bd\<lparr>is_available := False, borrowed_by := member_id\<rparr>) (books (data s)),
             members := AList.update (py_str member_id)
                       \<lparr>md_id = md_id md, md_name = md_name md, md_email = md_email md,
                        md_created_at = now e (clock_reads s),
                        borrowed_books = borrowed_books md @
                          [\<lparr>book_id = bid, borrowed_date = now e (Suc (clock_reads s)),
                            due_date = now e (Suc (Suc (clock_reads s))) + timedelta_days 14\<rparr>],
                        can_borrow_more = (length (borrowed_books md) < 2)\<rparr>
                       (members (data s)),
             transactions := transactions (data s) @
                       [\<lparr>tx_type = ''borrow'', tx_member_id = member_id, tx_book_id = bid,
                         tx_date = now e (Suc (Suc (Suc (clock_reads s))))\<rparr>]\<rparr>
          else data s))"
  by (simp add: LibrarySystem_borrow_book_def entity_defs manager_defs Let_def
      split: option.splits)

lemma return_book_data:
  "data (snd (LibrarySystem_return_book e member_id bid s)) =
     (case get_member s member_id of
        None \<Rightarrow> data s
      | Some md \<Rightarrow>
     (case get_book s bid of
        None \<Rightarrow> data s
      | Some bd \<Rightarrow>
          (data s)\<lparr>books := AList.update (py_str bid)
                     (bd\<lparr>is_available := True, borrowed_by := PyNone\<rparr>) (books (data s)),
           members := AList.update (py_str member_id)
                     \<lparr>md_id = md_id md, md_name = md_name md, md_email = md_email md,
                      md_created_at = now e (clock_reads s),
                      borrowed_books = filter (\<lambda>r. book_id r \<noteq> bid) (borrowed_books md),
                      can_borrow_more =
                        (length (filter (\<lambda>r. book_id r \<noteq> bid) (borrowed_books md)) < 3)\<rparr>
                     (members (data s)),
           transactions := transactions (data s) @
                     [\<lparr>tx_type = ''return'', tx_member_id = member_id, tx_book_id = bid,
                       tx_date = now e (Suc (clock_reads s))\<rparr>]\<rparr>))"
  by (simp add: LibrarySystem_return_book_def entity_defs manager_defs Let_def
      split: option.splits)

lemma run_induct:
  assumes "P s" and "\<And>s x. P s \<Longrightarrow> P (step e x s)"
  shows "P (run e ops s)"
  using assms(1) unfolding run_def
  by (induction ops arbitrary: s) (auto intro: assms(2))

section \<open>The borrowing limit\<close>

lemma limit_ok_step: "limit_ok s \<Longrightarrow> limit_ok (step e x s)"
proof (cases x)
  case (AddBook t a i c)
  then show "limit_ok s \<Longrightarrow> limit_ok (step e x s)"
    by (simp add: limit_ok_def add_book_data)
next
  case (AddMember nm em)
  then show "limit_ok s \<Longrightarrow> limit_ok (step e x s)"
    by (auto simp: limit_ok_def add_member_data dest!: set_updateD)
next
  case (BorrowBook m b)
  then show "limit_ok s \<Longrightarrow> limit_ok (step e x s)"
    by (auto simp: limit_ok_def borrow_book_data dest!: set_updateD split: option.splits)
next
  case (ReturnBook m b)
  assume ok: "limit_ok s"
  have "length (filter (\<lambda>r. book_id r \<noteq> b) (borrowed_books md)) \<le> 3"
    if "get_member s m = Some md" for md
  proof -
    from that have "(py_str m, md) \<in> set (members (data s))"
      by (auto simp: get_member_def dest: map_of_SomeD)
    with ok have "length (borrowed_books md) \<le> 3" by (auto simp: limit_ok_def)
    then show ?thesis using length_filter_le [of "\<lambda>r. book_id r \<noteq> b" "borrowed_books md"]
      by linarith
  qed
  with ok ReturnBook show "limit_ok (step e x s)"
    by (auto simp: limit_ok_def return_book_data dest!: set_updateD split: option.splits)
qed

lemma limit_ok_fresh: "limit_ok fresh_system"
  by (simp add: limit_ok_def fresh_system_def empty_document_def)

text \<open>
  Claim C2. In every store document reached from the empty store by a sequence of
  \<open>add_book\<close>, \<open>add_member\<close>, \<open>borrow_book\<close> and \<open>return_book\<close> calls, every member
  record has at most 3 entries in \<open>borrowed_books\<close>.
\<close>

theorem borrowed_books_at_most_three:
  "(k, md) \<in> set (members (data (run e ops fresh_system))) \<Longrightarrow> length (borrowed_books md) \<le> 3"
proof -
  have "limit_ok (run e ops fresh_system)"
    by (rule run_induct) (simp_all add: limit_ok_fresh limit_ok_step)
  then show "(k, md) \<in> set (members (data (run e ops fresh_system))) \<Longrightarrow>
      length (borrowed_books md) \<le> 3"
    by (auto simp: limit_ok_def)
qed

text \<open>
  Four books and one member, who borrows books 1, 2 and 3; the fourth borrow is refused
  and the list stays at three entries.
\<close>

theorem borrowed_books_at_most_three_witness:
  "\<forall>e. map (\<lambda>(k, md). (k, map book_id (borrowed_books md)))
          (members (data (run e
             [AddBook ''T1'' ''A'' ''ISBN1'' ''General'', AddBook ''T2'' ''A'' ''ISBN2'' ''General'',
              AddBook ''T3'' ''A'' ''ISBN3'' ''General'', AddBook ''T4'' ''A'' ''ISBN4'' ''General'',
              AddMember ''Ann'' ''ann@example.com'',
              BorrowBook (PyInt 1) (PyInt 1), BorrowBook (PyInt 1) (PyInt 2),
              BorrowBook (PyInt 1) (PyInt 3), BorrowBook (PyInt 1) (PyInt 4)] fresh_system)))
        = [(''1'', [PyInt 1, PyInt 2, PyInt 3])]
     \<and> list_all (\<lambda>(k, md). length (borrowed_books md) \<le> 3)
          (members (data (run e
             [AddBook ''T1'' ''A'' ''ISBN1'' ''General'', AddBook ''T2'' ''A'' ''ISBN2'' ''General'',
              AddBook ''T3'' ''A'' ''ISBN3'' ''General'', AddBook ''T4'' ''A'' ''ISBN4'' ''General'',
              AddMember ''Ann'' ''ann@example.com'',
              BorrowBook (PyInt 1) (PyInt 1), BorrowBook (PyInt 1) (PyInt 2),
              BorrowBook (PyInt 1) (PyInt 3), BorrowBook (PyInt 1) (PyInt 4)] fresh_system)))"
proof (intro allI conjI)
  fix e
  let ?ops = "[AddBook ''T1'' ''A'' ''ISBN1'' ''General'', AddBook ''T2'' ''A'' ''ISBN2'' ''General'',
              AddBook ''T3'' ''A'' ''ISBN3'' ''General'', AddBook ''T4'' ''A'' ''ISBN4'' ''General'',
              AddMember ''Ann'' ''ann@example.com'',
              BorrowBook (PyInt 1) (PyInt 1), BorrowBook (PyInt 1) (PyInt 2),
              BorrowBook (PyInt 1) (PyInt 3), BorrowBook (PyInt 1) (PyInt 4)]"
  show "map (\<lambda>(k, md). (k, map book_id (borrowed_books md)))
          (members (data (run e ?ops fresh_system)))
        = [(''1'', [PyInt 1, PyInt 2, PyInt 3])]"
    by (simp add: eval_defs)
  show "list_all (\<lambda>(k, md). length (borrowed_books md) \<le> 3)
          (members (data (run e ?ops fresh_system)))"
    unfolding list_all_iff using borrowed_books_at_most_three [of _ _ e ?ops] by blast
qed

section \<open>Availability and \<open>borrowed_by\<close>\<close>

lemma found_key: "map_of al k = Some v \<Longrightarrow> insert k (fst ` set al) = fst ` set al"
  by (force dest: map_of_SomeD)

lemma borrow_book_keys:
  "fst ` set (members (data (snd (LibrarySystem_borrow_book e member_id bid s))))
     = fst ` set (members (data s))"
  by (simp add: borrow_book_data AList.dom_update get_member_def found_key
      split: option.splits)

lemma return_book_keys:
  "fst ` set (members (data (snd (LibrarySystem_return_book e member_id bid s))))
     = fst ` set (members (data s))"
  by (simp add: return_book_data AList.dom_update get_member_def found_key
      split: option.splits)

lemma member_keys_numeric_step: "member_keys_numeric s \<Longrightarrow> member_keys_numeric (step e x s)"
proof (cases x)
  case (AddBook t a i c)
  then show "member_keys_numeric s \<Longrightarrow> member_keys_numeric (step e x s)"
    by (simp add: member_keys_numeric_def add_book_data)
next
  case (AddMember nm em)
  then show "member_keys_numeric s \<Longrightarrow> member_keys_numeric (step e x s)"
    by (auto simp: member_keys_numeric_def add_member_data AList.dom_update)
next
  case (BorrowBook m b)
  then show "member_keys_numeric s \<Longrightarrow> member_keys_numeric (step e x s)"
    by (simp add: member_keys_numeric_def borrow_book_keys)
next
  case (ReturnBook m b)
  then show "member_keys_numeric s \<Longrightarrow> member_keys_numeric (step e x s)"
    by (simp add: member_keys_numeric_def return_book_keys)
qed

lemma found_member_not_None:
  assumes "member_keys_numeric s" and "get_member s member_id = Some md"
  shows "member_id \<noteq> PyNone"
proof
  assume "member_id = PyNone"
  with assms(2) have "(''None'', md) \<in> set (members (data s))"
    by (auto simp: get_member_def dest: map_of_SomeD)
  then have "''None'' \<in> fst ` set (members (data s))" by force
  with assms(1) obtain i where "''None'' = str_int i"
    unfolding member_keys_numeric_def by blast
  then show False using str_int_not_None [of i] by simp
qed

lemma availability_ok_step:
  assumes "member_keys_numeric s" and "availability_ok s"
  shows "availability_ok (step e x s)"
proof (cases x)
  case (AddBook t a i c)
  with assms(2) show ?thesis
    by (auto simp: availability_ok_def add_book_data dest!: set_updateD)
next
  case (AddMember nm em)
  with assms(2) show ?thesis by (simp add: availability_ok_def add_member_data)
next
  case (BorrowBook m b)
  with assms(2) found_member_not_None [OF assms(1)] show ?thesis
    by (auto simp: availability_ok_def borrow_book_data dest!: set_updateD
        split: option.splits)
next
  case (ReturnBook m b)
  with assms(2) show ?thesis
    by (auto simp: availability_ok_def return_book_data dest!: set_updateD
        split: option.splits)
qed

text \<open>
  Claim C1. In every store document reached from the empty store by a sequence of
  \<open>add_book\<close>, \<open>add_member\<close>, \<open>borrow_book\<close> and \<open>return_book\<close> calls, every book record
  has \<open>is_available == False\<close> if and only if its \<open>borrowed_by\<close> is not \<open>None\<close>.
  (A call \<open>borrow_book(None, b)\<close> finds no member: no key of the store is the text
  \<open>None\<close>.)
\<close>

theorem availability_iff_borrowed_by:
  "(k, bd) \<in> set (books (data (run e ops fresh_system))) \<Longrightarrow>
   (is_available bd = False) = (borrowed_by bd \<noteq> PyNone)"
proof -
  have "member_keys_numeric (run e ops fresh_system) \<and> availability_ok (run e ops fresh_system)"
  proof (rule run_induct)
    show "member_keys_numeric fresh_system \<and> availability_ok fresh_system"
      by (simp add: member_keys_numeric_def availability_ok_def fresh_system_def
          empty_document_def)
  next
    fix s x
    assume "member_keys_numeric s \<and> availability_ok s"
    then show "member_keys_numeric (step e x s) \<and> availability_ok (step e x s)"
      by (simp add: member_keys_numeric_step availability_ok_step)
  qed
  then show "(k, bd) \<in> set (books (data (run e ops fresh_system))) \<Longrightarrow>
      (is_available bd = False) = (borrowed_by bd \<noteq> PyNone)"
    by (auto simp: availability_ok_def)
qed

text \<open>Two books and one member, who borrows book 1 and then tries with the id \<open>None\<close>.\<close>

theorem availability_iff_borrowed_by_witness:
  "\<forall>e. map (\<lambda>(k, bd). (k, is_available bd, borrowed_by bd))
          (books (data (run e
             [AddBook ''T1'' ''A'' ''ISBN1'' ''General'', AddBook ''T2'' ''A'' ''ISBN2'' ''General'',
              AddMember ''Ann'' ''ann@example.com'', BorrowBook (PyInt 1) (PyInt 1),
              BorrowBook PyNone (PyInt 2)] fresh_system)))
        = [(''1'', False, PyInt 1), (''2'', True, PyNone)]
     \<and> list_all (\<lambda>(k, bd). (is_available bd = False) = (borrowed_by bd \<noteq> PyNone))
          (books (data (run e
             [AddBook ''T1'' ''A'' ''ISBN1'' ''General'', AddBook ''T2'' ''A'' ''ISBN2'' ''General'',
              AddMember ''Ann'' ''ann@example.com'', BorrowBook (PyInt 1) (PyInt 1),
              BorrowBook PyNone (PyInt 2)] fresh_system)))"
proof (intro allI conjI)
  fix e
  let ?ops = "[AddBook ''T1'' ''A'' ''ISBN1'' ''General'', AddBook ''T2'' ''A'' ''ISBN2'' ''General'',
              AddMember ''Ann'' ''ann@example.com'', BorrowBook (PyInt 1) (PyInt 1),
              BorrowBook PyNone (PyInt 2)]"
  show "map (\<lambda>(k, bd). (k, is_available bd, borrowed_by bd))
          (books (data (run e ?ops fresh_system)))
        = [(''1'', False, PyInt 1), (''2'', True, PyNone)]"
    by (simp add: eval_defs)
  show "list_all (\<lambda>(k, bd). (is_available bd = False) = (borrowed_by bd \<noteq> PyNone))
          (books (data (run e ?ops fresh_system)))"
    unfolding list_all_iff using availability_iff_borrowed_by [of _ _ e ?ops] by blast
qed

section \<open>Distinct book ids in a member's list\<close>

lemma holdings_okI:
  assumes "distinct (map fst (members d))"
    and "\<And>k md. (k, md) \<in> set (members d) \<Longrightarrow>
           distinct (map (\<lambda>r. py_str (book_id r)) (borrowed_books md))"
    and "\<And>k md r. (k, md) \<in> set (members d) \<Longrightarrow> r \<in> set (borrowed_books md) \<Longrightarrow>
           \<exists>bd. map_of (books d) (py_str (book_id r)) = Some bd
                \<and> \<not> is_available bd \<and> py_str (borrowed_by bd) = k"
  shows "holdings_ok d"
  using assms unfolding holdings_ok_def by blast

lemma holdings_ok_keys: "holdings_ok d \<Longrightarrow> distinct (map fst (members d))"
  by (simp add: holdings_ok_def)

lemma holdings_ok_distinct:
  "holdings_ok d \<Longrightarrow> (k, md) \<in> set (members d) \<Longrightarrow>
   distinct (map (\<lambda>r. py_str (book_id r)) (borrowed_books md))"
  unfolding holdings_ok_def by blast

lemma holdings_ok_lent:
  "holdings_ok d \<Longrightarrow> (k, md) \<in> set (members d) \<Longrightarrow> r \<in> set (borrowed_books md) \<Longrightarrow>
   \<exists>bd. map_of (books d) (py_str (book_id r)) = Some bd
        \<and> \<not> is_available bd \<and> py_str (borrowed_by bd) = k"
  unfolding holdings_ok_def by blast

lemma set_update_distinct:
  "distinct (map fst al) \<Longrightarrow> p \<in> set (AList.update k v al) \<Longrightarrow>
   p = (k, v) \<or> (p \<in> set al \<and> fst p \<noteq> k)"
  by (induction al) (auto split: if_splits simp: rev_image_eqI)

lemma same_key_same_record:
  assumes "distinct (map f xs)" "x \<in> set xs" "y \<in> set xs" "f x = f y"
  shows "x = y"
  using assms by (meson distinct_map inj_on_def)

lemma holdings_ok_add_book:
  assumes ok: "holdings_ok d" and fresh: "k0 \<notin> fst ` set (books d)"
  shows "holdings_ok (d\<lparr>books := AList.update k0 bd0 (books d)\<rparr>)"
proof (rule holdings_okI)
  show "distinct (map fst (members (d\<lparr>books := AList.update k0 bd0 (books d)\<rparr>)))"
    using ok by (simp add: holdings_ok_keys)
next
  fix k md
  assume "(k, md) \<in> set (members (d\<lparr>books := AList.update k0 bd0 (books d)\<rparr>))"
  then show "distinct (map (\<lambda>r. py_str (book_id r)) (borrowed_books md))"
    using ok by (simp add: holdings_ok_distinct)
next
  fix k md r
  assume "(k, md) \<in> set (members (d\<lparr>books := AList.update k0 bd0 (books d)\<rparr>))"
    and r: "r \<in> set (borrowed_books md)"
  then have "(k, md) \<in> set (members d)" by simp
  from holdings_ok_lent [OF ok this r]
  obtain bd where bd: "map_of (books d) (py_str (book_id r)) = Some bd"
    "\<not> is_available bd" "py_str (borrowed_by bd) = k" by blast
  from bd(1) have "py_str (book_id r) \<in> fst ` set (books d)"
    by (force dest: map_of_SomeD)
  with fresh have "py_str (book_id r) \<noteq> k0" by blast
  with bd show "\<exists>bd. map_of (books (d\<lparr>books := AList.update k0 bd0 (books d)\<rparr>))
          (py_str (book_id r)) = Some bd \<and> \<not> is_available bd \<and> py_str (borrowed_by bd) = k"
    by (simp add: AList.update_conv')
qed

lemma holdings_ok_add_member:
  assumes ok: "holdings_ok d" and empty: "borrowed_books md0 = []"
  shows "holdings_ok (d\<lparr>members := AList.update k0 md0 (members d)\<rparr>)"
proof (rule holdings_okI)
  show "distinct (map fst (members (d\<lparr>members := AList.update k0 md0 (members d)\<rparr>)))"
    using ok by (simp add: holdings_ok_keys AList.distinct_update)
next
  fix k md
  assume "(k, md) \<in> set (members (d\<lparr>members := AList.update k0 md0 (members d)\<rparr>))"
  then have "(k, md) = (k0, md0) \<or> (k, md) \<in> set (members d)"
    by (auto dest: set_updateD)
  then show "distinct (map (\<lambda>r. py_str (book_id r)) (borrowed_books md))"
    using ok empty by (auto simp: holdings_ok_distinct)
next
  fix k md r
  assume "(k, md) \<in> set (members (d\<lparr>members := AList.update k0 md0 (members d)\<rparr>))"
    and r: "r \<in> set (borrowed_books md)"
  then have "(k, md) = (k0, md0) \<or> (k, md) \<in> set (members d)"
    by (auto dest: set_updateD)
  with r empty have "(k, md) \<in> set (members d)" by auto
  from holdings_ok_lent [OF ok this r]
  show "\<exists>bd. map_of (books (d\<lparr>members := AList.update k0 md0 (members d)\<rparr>))
          (py_str (book_id r)) = Some bd \<and> \<not> is_available bd \<and> py_str (borrowed_by bd) = k"
    by simp
qed

lemma holdings_ok_borrow:
  assumes ok: "holdings_ok d"
    and md: "map_of (members d) km = Some md"
    and bd: "map_of (books d) (py_str b) = Some bd" "is_available bd"
    and bd': "\<not> is_available bd'" "py_str (borrowed_by bd') = km"
    and md': "borrowed_books md' = borrowed_books md @ [rec]" "book_id rec = b"
  shows "holdings_ok (d\<lparr>books := AList.update (py_str b) bd' (books d),
                         members := AList.update km md' (members d),
                         transactions := log\<rparr>)"
    (is "holdings_ok ?d'")
proof (rule holdings_okI)
  have other_key: "py_str (book_id r) \<noteq> py_str b"
    if "(k, mdx) \<in> set (members d)" "r \<in> set (borrowed_books mdx)" for k mdx r
    using holdings_ok_lent [OF ok that] bd by auto
  have old: "(km, md) \<in> set (members d)" using md by (rule map_of_SomeD)
  have entry: "(k, mdx) = (km, md') \<or> (k, mdx) \<in> set (members d)"
    if "(k, mdx) \<in> set (members ?d')" for k mdx
    using that by (auto dest: set_updateD)
  show "distinct (map fst (members ?d'))"
    using ok by (simp add: holdings_ok_keys AList.distinct_update)
  show "distinct (map (\<lambda>r. py_str (book_id r)) (borrowed_books mdx))"
    if "(k, mdx) \<in> set (members ?d')" for k mdx
  proof -
    from entry [OF that] show ?thesis
    proof
      assume "(k, mdx) = (km, md')"
      moreover have "distinct (map (\<lambda>r. py_str (book_id r)) (borrowed_books md))"
        using ok old by (rule holdings_ok_distinct)
      moreover have "py_str b \<notin> (\<lambda>r. py_str (book_id r)) ` set (borrowed_books md)"
        using other_key [OF old] by force
      ultimately show ?thesis by (simp add: md')
    next
      assume "(k, mdx) \<in> set (members d)"
      with ok show ?thesis by (rule holdings_ok_distinct)
    qed
  qed
  show "\<exists>bdx. map_of (books ?d') (py_str (book_id r)) = Some bdx
          \<and> \<not> is_available bdx \<and> py_str (borrowed_by bdx) = k"
    if "(k, mdx) \<in> set (members ?d')" "r \<in> set (borrowed_books mdx)" for k mdx r
  proof -
    from entry [OF that(1)] show ?thesis
    proof
      assume eq: "(k, mdx) = (km, md')"
      with that(2) md' have "r = rec \<or> r \<in> set (borrowed_books md)" by auto
      then show ?thesis
      proof
        assume "r = rec"
        with eq bd' md' show ?thesis by (simp add: AList.update_conv')
      next
        assume r: "r \<in> set (borrowed_books md)"
        from holdings_ok_lent [OF ok old r] other_key [OF old r] eq
        show ?thesis by (simp add: AList.update_conv')
      qed
    next
      assume old_entry: "(k, mdx) \<in> set (members d)"
      from holdings_ok_lent [OF ok old_entry that(2)] other_key [OF old_entry that(2)]
      show ?thesis by (simp add: AList.update_conv')
    qed
  qed
qed

lemma holdings_ok_return:
  assumes ok: "holdings_ok d"
    and md: "map_of (members d) km = Some md"
    and bd: "map_of (books d) (py_str b) = Some bd"
    and holder: "is_available bd \<or> b \<in> set (map book_id (borrowed_books md))"
    and md': "borrowed_books md' = filter (\<lambda>r. book_id r \<noteq> b) (borrowed_books md)"
  shows "holdings_ok (d\<lparr>books := AList.update (py_str b) bd' (books d),
                         members := AList.update km md' (members d),
                         transactions := log\<rparr>)"
    (is "holdings_ok ?d'")
proof (rule holdings_okI)
  have keys: "distinct (map fst (members d))" using ok by (rule holdings_ok_keys)
  have old: "(km, md) \<in> set (members d)" using md by (rule map_of_SomeD)
  have entry: "(k, mdx) = (km, md') \<or> ((k, mdx) \<in> set (members d) \<and> k \<noteq> km)"
    if "(k, mdx) \<in> set (members ?d')" for k mdx
    using that set_update_distinct [OF keys, of "(k, mdx)" km md'] by auto
  have kept: "py_str (book_id r) \<noteq> py_str b"
    if "r \<in> set (borrowed_books md)" "book_id r \<noteq> b" for r
  proof
    assume same: "py_str (book_id r) = py_str b"
    from holdings_ok_lent [OF ok old that(1)] same bd
    have "\<not> is_available bd" by auto
    with holder obtain r0 where r0: "r0 \<in> set (borrowed_books md)" "book_id r0 = b" by auto
    have "distinct (map (\<lambda>r. py_str (book_id r)) (borrowed_books md))"
      using ok old by (rule holdings_ok_distinct)
    from same_key_same_record [OF this that(1) r0(1)] same r0(2) have "r = r0" by simp
    with that(2) r0(2) show False by simp
  qed
  have others: "py_str (book_id r) \<noteq> py_str b"
    if "(k, mdx) \<in> set (members d)" "k \<noteq> km" "r \<in> set (borrowed_books mdx)" for k mdx r
  proof
    assume same: "py_str (book_id r) = py_str b"
    from holdings_ok_lent [OF ok that(1,3)] same bd
    have lent: "\<not> is_available bd" "py_str (borrowed_by bd) = k" by auto
    with holder obtain r0 where r0: "r0 \<in> set (borrowed_books md)" "book_id r0 = b" by auto
    from holdings_ok_lent [OF ok old r0(1)] r0(2) bd
    have "py_str (borrowed_by bd) = km" by auto
    with lent(2) that(2) show False by simp
  qed
  show "distinct (map fst (members ?d'))"
    using keys by (simp add: AList.distinct_update)
  show "distinct (map (\<lambda>r. py_str (book_id r)) (borrowed_books mdx))"
    if "(k, mdx) \<in> set (members ?d')" for k mdx
  proof -
    from entry [OF that] show ?thesis
    proof
      assume "(k, mdx) = (km, md')"
      moreover have "distinct (map (\<lambda>r. py_str (book_id r)) (borrowed_books md))"
        using ok old by (rule holdings_ok_distinct)
      ultimately show ?thesis by (simp add: md' distinct_map_filter)
    next
      assume "(k, mdx) \<in> set (members d) \<and> k \<noteq> km"
      with ok show ?thesis by (blast intro: holdings_ok_distinct)
    qed
  qed
  show "\<exists>bdx. map_of (books ?d') (py_str (book_id r)) = Some bdx
          \<and> \<not> is_available bdx \<and> py_str (borrowed_by bdx) = k"
    if "(k, mdx) \<in> set (members ?d')" "r \<in> set (borrowed_books mdx)" for k mdx r
  proof -
    from entry [OF that(1)] show ?thesis
    proof
      assume eq: "(k, mdx) = (km, md')"
      with that(2) md' have r: "r \<in> set (borrowed_books md)" "book_id r \<noteq> b" by auto
      from holdings_ok_lent [OF ok old r(1)] kept [OF r] eq
      show ?thesis by (simp add: AList.update_conv')
    next
      assume old_entry: "(k, mdx) \<in> set (members d) \<and> k \<noteq> km"
      then have 1: "(k, mdx) \<in> set (members d)" and 2: "k \<noteq> km" by simp_all
      from holdings_ok_lent [OF ok 1 that(2)] others [OF 1 2 that(2)]
      show ?thesis by (simp add: AList.update_conv')
    qed
  qed
qed

lemma next_book_id_step:
  "next_book_id (step e x s) = (case x of AddBook t a i c \<Rightarrow> next_book_id s + 1 | _ \<Rightarrow> next_book_id s)"
  by (cases x)
    (simp_all add: service_defs entity_defs manager_defs Let_def split: option.splits)

lemma book_keys_step:
  "fst ` set (books (data (step e x s))) =
     (case x of AddBook t a i c \<Rightarrow> insert (str_int (next_book_id s)) (fst ` set (books (data s)))
      | _ \<Rightarrow> fst ` set (books (data s)))"
  by (cases x)
    (simp_all add: add_book_data add_member_data borrow_book_data return_book_data
      AList.dom_update get_book_def found_key split: option.splits)

lemma book_keys_below_step:
  assumes below: "book_keys_below s"
  shows "book_keys_below (step e x s)"
proof (cases x)
  case (AddBook t a i c)
  have "\<exists>j. k = str_int j \<and> j < next_book_id s + 1"
    if "k \<in> insert (str_int (next_book_id s)) (fst ` set (books (data s)))" for k
  proof (cases "k = str_int (next_book_id s)")
    case True
    then show ?thesis by (intro exI [of _ "next_book_id s"]) simp
  next
    case False
    with that below obtain j where "k = str_int j" "j < next_book_id s"
      unfolding book_keys_below_def by blast
    then show ?thesis by (intro exI [of _ j]) simp
  qed
  with AddBook show ?thesis
    unfolding book_keys_below_def book_keys_step next_book_id_step by simp
next
  case (AddMember nm em)
  with below show ?thesis
    unfolding book_keys_below_def book_keys_step next_book_id_step by simp
next
  case (BorrowBook m b)
  with below show ?thesis
    unfolding book_keys_below_def book_keys_step next_book_id_step by simp
next
  case (ReturnBook m b)
  with below show ?thesis
    unfolding book_keys_below_def book_keys_step next_book_id_step by simp
qed

lemma holdings_ok_step:
  assumes ok: "holdings_ok (data s)" and below: "book_keys_below s"
    and holder: "return_by_holder s x"
  shows "holdings_ok (data (step e x s))"
proof (cases x)
  case (AddBook t a i c)
  have "str_int (next_book_id s) \<notin> fst ` set (books (data s))"
  proof
    assume "str_int (next_book_id s) \<in> fst ` set (books (data s))"
    with below obtain j where "str_int (next_book_id s) = str_int j" "j < next_book_id s"
      unfolding book_keys_below_def by blast
    then show False using str_int_inj by blast
  qed
  with ok AddBook show ?thesis by (simp add: add_book_data holdings_ok_add_book)
next
  case (AddMember nm em)
  with ok show ?thesis by (simp add: add_member_data holdings_ok_add_member)
next
  case (BorrowBook m b)
  show ?thesis
  proof (cases "get_member s m")
    case None
    with ok BorrowBook show ?thesis by (simp add: borrow_book_data)
  next
    case (Some md)
    show ?thesis
    proof (cases "get_book s b")
      case None
      with ok BorrowBook Some show ?thesis by (simp add: borrow_book_data)
    next
      case (Some bd)
      show ?thesis
      proof (cases "is_available bd \<and> length (borrowed_books md) < 3")
        case False
        with ok BorrowBook \<open>get_member s m = Some md\<close> Some show ?thesis
          by (auto simp: borrow_book_data)
      next
        case True
        have "holdings_ok ((data s)\<lparr>books := AList.update (py_str b)
                  (bd\<lparr>is_available := False, borrowed_by := m\<rparr>) (books (data s)),
               members := AList.update (py_str m)
                  \<lparr>md_id = md_id md, md_name = md_name md, md_email = md_email md,
                   md_created_at = now e (clock_reads s),
                   borrowed_books = borrowed_books md @
                     [\<lparr>book_id = b, borrowed_date = now e (Suc (clock_reads s)),
                       due_date = now e (Suc (Suc (clock_reads s))) + timedelta_days 14\<rparr>],
                   can_borrow_more = (length (borrowed_books md) < 2)\<rparr>
                  (members (data s)),
               transactions := transactions (data s) @
                  [\<lparr>tx_type = ''borrow'', tx_member_id = m, tx_book_id = b,
                    tx_date = now e (Suc (Suc (Suc (clock_reads s))))\<rparr>]\<rparr>)"
        proof (rule holdings_ok_borrow [OF ok])
          show "map_of (members (data s)) (py_str m) = Some md"
            using \<open>get_member s m = Some md\<close> by (simp add: get_member_def)
          show "map_of (books (data s)) (py_str b) = Some bd"
            using Some by (simp add: get_book_def)
          show "is_available bd" using True by simp
          show "book_id \<lparr>book_id = b, borrowed_date = now e (Suc (clock_reads s)),
                  due_date = now e (Suc (Suc (clock_reads s))) + timedelta_days 14\<rparr> = b"
            by simp
        qed simp_all
        with BorrowBook \<open>get_member s m = Some md\<close> Some True show ?thesis
          by (simp add: borrow_book_data)
      qed
    qed
  qed
next
  case (ReturnBook m b)
  show ?thesis
  proof (cases "get_member s m")
    case None
    with ok ReturnBook show ?thesis by (simp add: return_book_data)
  next
    case (Some md)
    show ?thesis
    proof (cases "get_book s b")
      case None
      with ok ReturnBook Some show ?thesis by (simp add: return_book_data)
    next
      case (Some bd)
      have "holdings_ok ((data s)\<lparr>books := AList.update (py_str b)
                (bd\<lparr>is_available := True, borrowed_by := PyNone\<rparr>) (books (data s)),
             members := AList.update (py_str m)
                \<lparr>md_id = md_id md, md_name = md_name md, md_email = md_email md,
                 md_created_at = now e (clock_reads s),
                 borrowed_books = filter (\<lambda>r. book_id r \<noteq> b) (borrowed_books md),
                 can_borrow_more =
                   (length (filter (\<lambda>r. book_id r \<noteq> b) (borrowed_books md)) < 3)\<rparr>
                (members (data s)),
             transactions := transactions (data s) @
                [\<lparr>tx_type = ''return'', tx_member_id = m, tx_book_id = b,
                  tx_date = now e (Suc (clock_reads s))\<rparr>]\<rparr>)"
      proof (rule holdings_ok_return [OF ok])
        show "map_of (members (data s)) (py_str m) = Some md"
          using \<open>get_member s m = Some md\<close> by (simp add: get_member_def)
        show "map_of (books (data s)) (py_str b) = Some bd"
          using Some by (simp add: get_book_def)
        show "is_available bd \<or> b \<in> set (map book_id (borrowed_books md))"
          using holder ReturnBook \<open>get_member s m = Some md\<close> Some by simp
      qed simp
      with ReturnBook \<open>get_member s m = Some md\<close> Some show ?thesis
        by (simp add: return_book_data)
    qed
  qed
qed

lemma holdings_ok_run:
  "holdings_ok (data s) \<Longrightarrow> book_keys_below s \<Longrightarrow> returns_by_holder e ops s \<Longrightarrow>
   holdings_ok (data (run e ops s))"
proof (induction ops arbitrary: s)
  case Nil
  then show ?case by (simp add: run_def)
next
  case (Cons x xs)
  from Cons.prems have "holdings_ok (data (step e x s))" "book_keys_below (step e x s)"
    "returns_by_holder e xs (step e x s)"
    by (simp_all add: holdings_ok_step book_keys_below_step)
  from Cons.IH [OF this] show ?case by (simp add: run_def)
qed

lemma distinct_book_ids:
  "distinct (map (\<lambda>r. py_str (book_id r)) rs) \<Longrightarrow> distinct (map book_id rs)"
  by (induction rs) auto

text \<open>
  Claim C5 as stated fails. Member 1 borrows book 1, member 2 returns it (the service does
  not check who holds a book), member 1 borrows it again: the list of member 1 now holds
  two records with \<open>book_id = 1\<close>.
\<close>

theorem duplicate_book_id_counterexample:
  "\<forall>e. map (\<lambda>(k, md). (k, map book_id (borrowed_books md)))
          (members (data (run e
             [AddBook ''T'' ''A'' ''ISBN1'' ''General'', AddMember ''Ann'' ''ann@example.com'',
              AddMember ''Bob'' ''bob@example.com'', BorrowBook (PyInt 1) (PyInt 1),
              ReturnBook (PyInt 2) (PyInt 1), BorrowBook (PyInt 1) (PyInt 1)] fresh_system)))
        = [(''1'', [PyInt 1, PyInt 1]), (''2'', [])]"
  by (simp add: eval_defs)

text \<open>
  Claim C5, amended. In every store document reached from the empty store by a sequence
  of \<open>add_book\<close>, \<open>add_member\<close>, \<open>borrow_book\<close> and \<open>return_book\<close> calls in which every
  \<open>return_book(m, b)\<close> that finds both records, with the book lent out, is made for a
  member whose \<open>borrowed_books\<close> holds a record with \<open>book_id = b\<close>, the \<open>book_id\<close>
  values in every member's \<open>borrowed_books\<close> are pairwise distinct.
\<close>

theorem distinct_book_ids_when_holders_return:
  "returns_by_holder e ops fresh_system \<Longrightarrow>
   (k, md) \<in> set (members (data (run e ops fresh_system))) \<Longrightarrow>
   distinct (map book_id (borrowed_books md))"
proof -
  assume guard: "returns_by_holder e ops fresh_system"
    and entry: "(k, md) \<in> set (members (data (run e ops fresh_system)))"
  have "holdings_ok (data fresh_system)"
    by (simp add: holdings_ok_def fresh_system_def empty_document_def)
  moreover have "book_keys_below fresh_system"
    by (simp add: book_keys_below_def fresh_system_def empty_document_def)
  ultimately have "holdings_ok (data (run e ops fresh_system))"
    using guard by (rule holdings_ok_run)
  from holdings_ok_distinct [OF this entry] show ?thesis by (rule distinct_book_ids)
qed

text \<open>Member 1 borrows books 1 and 2, returns book 1 and borrows it again.\<close>

theorem distinct_book_ids_when_holders_return_witness:
  "\<forall>e. returns_by_holder e
          [AddBook ''T1'' ''A'' ''ISBN1'' ''General'', AddBook ''T2'' ''A'' ''ISBN2'' ''General'',
           AddMember ''Ann'' ''ann@example.com'', BorrowBook (PyInt 1) (PyInt 1),
           BorrowBook (PyInt 1) (PyInt 2), ReturnBook (PyInt 1) (PyInt 1),
           BorrowBook (PyInt 1) (PyInt 1)] fresh_system
     \<and> map (\<lambda>(k, md). (k, map book_id (borrowed_books md)))
          (members (data (run e
             [AddBook ''T1'' ''A'' ''ISBN1'' ''General'', AddBook ''T2'' ''A'' ''ISBN2'' ''General'',
              AddMember ''Ann'' ''ann@example.com'', BorrowBook (PyInt 1) (PyInt 1),
              BorrowBook (PyInt 1) (PyInt 2), ReturnBook (PyInt 1) (PyInt 1),
              BorrowBook (PyInt 1) (PyInt 1)] fresh_system)))
        = [(''1'', [PyInt 2, PyInt 1])]
     \<and> list_all (\<lambda>(k, md). distinct (map book_id (borrowed_books md)))
          (members (data (run e
             [AddBook ''T1'' ''A'' ''ISBN1'' ''General'', AddBook ''T2'' ''A'' ''ISBN2'' ''General'',
              AddMember ''Ann'' ''ann@example.com'', BorrowBook (PyInt 1) (PyInt 1),
              BorrowBook (PyInt 1) (PyInt 2), ReturnBook (PyInt 1) (PyInt 1),
              BorrowBook (PyInt 1) (PyInt 1)] fresh_system)))"
proof (intro allI conjI)
  fix e
  let ?ops = "[AddBook ''T1'' ''A'' ''ISBN1'' ''General'', AddBook ''T2'' ''A'' ''ISBN2'' ''General'',
           AddMember ''Ann'' ''ann@example.com'', BorrowBook (PyInt 1) (PyInt 1),
           BorrowBook (PyInt 1) (PyInt 2), ReturnBook (PyInt 1) (PyInt 1),
           BorrowBook (PyInt 1) (PyInt 1)]"
  show guard: "returns_by_holder e ?ops fresh_system"
    by (simp add: eval_defs)
  show "map (\<lambda>(k, md). (k, map book_id (borrowed_books md)))
          (members (data (run e ?ops fresh_system)))
        = [(''1'', [PyInt 2, PyInt 1])]"
    by (simp add: eval_defs)
  show "list_all (\<lambda>(k, md). distinct (map book_id (borrowed_books md)))
          (members (data (run e ?ops fresh_system)))"
    unfolding list_all_iff
    using distinct_book_ids_when_holders_return [OF guard] by blast
qed

end
